theory Spec2Isabelle
  imports Main
begin

section \<open>Data model of blockchain.py\<close>

text \<open>
  Python values that the node stores in a transaction: the form handler passes strings,
  the mining flow passes the integer reward.
\<close>

datatype pyval = IntV int | StrV string

text \<open>
  A transaction is an \<^verbatim>\<open>OrderedDict\<close>: an association list, keys in insertion order.
\<close>

type_synonym transaction = "(string \<times> pyval) list"

text \<open>The exceptions the modelled code can raise.\<close>

datatype error =
    IndexError
  | KeyError string
  | TypeError
  | ValueError
  | BinasciiError
  | ConnectionError

text \<open>\<^verbatim>\<open>binascii.Error\<close> is a subclass of \<^verbatim>\<open>ValueError\<close>.\<close>

fun is_ValueError :: "error \<Rightarrow> bool" where
  "is_ValueError ValueError = True"
| "is_ValueError BinasciiError = True"
| "is_ValueError _ = False"

text \<open>
  A block is a dict with five fixed keys. The timestamp is the reading of the clock; its
  type is left open.
\<close>

record 't block =
  block_number :: nat
  timestamp :: 't
  transactions :: "transaction list"
  nonce :: nat
  previous_hash :: string

text \<open>The attributes of a \<^verbatim>\<open>Blockchain\<close> object.\<close>

record 't blockchain =
  transactions :: "transaction list"
  chain :: "'t block list"
  nodes :: "string set"
  node_id :: string

text \<open>
  The library functions the node calls: \<^verbatim>\<open>hashlib\<close>, \<^verbatim>\<open>json.dumps\<close>, \<^verbatim>\<open>str\<close> on
  transactions, and the RSA key import and PKCS#1 v1.5 verification of \<^verbatim>\<open>Crypto\<close>. They are
  parameters of every operation that uses them.
\<close>

record ('k, 't) env =
  sha256_hexdigest :: "string \<Rightarrow> string"
  json_dumps :: "'t block \<Rightarrow> string"
  str_transactions :: "transaction list \<Rightarrow> string"
  str_transaction :: "transaction \<Rightarrow> string"
  importKey :: "nat list \<Rightarrow> error + 'k"
  pkcs1_verify :: "'k \<Rightarrow> string \<Rightarrow> nat list \<Rightarrow> error + bool"

definition MINING_SENDER :: string where
  "MINING_SENDER = ''The Blockchain''"

definition MINING_REWARD :: int where
  "MINING_REWARD = 1"

definition MINING_DIFFICULTY :: int where
  "MINING_DIFFICULTY = 2"

section \<open>Strings and bytes\<close>

text \<open>\<^verbatim>\<open>str(n)\<close> for a non-negative integer: its decimal digits.\<close>

definition digit_char :: "nat \<Rightarrow> char" where
  "digit_char d = char_of (48 + d)"

fun str_nat :: "nat \<Rightarrow> string" where
  "str_nat n = (if n < 10 then [digit_char n] else str_nat (n div 10) @ [digit_char (n mod 10)])"

declare str_nat.simps [simp del]

text \<open>\<^verbatim>\<open>s[:d]\<close> and \<^verbatim>\<open>'0' * d\<close> for an integer \<open>d\<close> of either sign.\<close>

definition py_prefix :: "int \<Rightarrow> string \<Rightarrow> string" where
  "py_prefix d s = (if 0 \<le> d then take (nat d) s else take (length s - nat (- d)) s)"

definition py_zeros :: "int \<Rightarrow> string" where
  "py_zeros d = replicate (nat d) CHR ''0''"

text \<open>\<^verbatim>\<open>binascii.unhexlify\<close>: pairs of hexadecimal digits to bytes.\<close>

definition hexval :: "char \<Rightarrow> nat option" where
  "hexval c =
     (let n = of_char c :: nat in
      if 48 \<le> n \<and> n \<le> 57 then Some (n - 48)
      else if 97 \<le> n \<and> n \<le> 102 then Some (n - 87)
      else if 65 \<le> n \<and> n \<le> 70 then Some (n - 55)
      else None)"

fun unhexlify :: "string \<Rightarrow> error + nat list" where
  "unhexlify [] = Inr []"
| "unhexlify [c] = Inl BinasciiError"
| "unhexlify (a # b # rest) =
     (case (hexval a, hexval b) of
        (Some x, Some y) \<Rightarrow>
          (case unhexlify rest of
             Inl e \<Rightarrow> Inl e
           | Inr bs \<Rightarrow> Inr ((16 * x + y) # bs))
      | _ \<Rightarrow> Inl BinasciiError)"

section \<open>Ledger operations\<close>

text \<open>
  \<^verbatim>\<open>create_block\<close>: the new block takes the pending list, the pool is rebound to a fresh
  empty list, the block is appended and returned. \<open>now\<close> is the value of \<^verbatim>\<open>time()\<close>.
\<close>

definition create_block ::
  "'t \<Rightarrow> 't blockchain \<Rightarrow> nat \<Rightarrow> string \<Rightarrow> 't blockchain \<times> 't block" where
  "create_block now st nonce' previous_hash' =
     (let blk = \<lparr> block_number = length (chain st) + 1,
                  timestamp = now,
                  block.transactions = blockchain.transactions st,
                  nonce = nonce',
                  previous_hash = previous_hash' \<rparr>
      in (st \<lparr> blockchain.transactions := [], chain := chain st @ [blk] \<rparr>, blk))"

text \<open>\<^verbatim>\<open>__init__\<close>: empty state, then the genesis block.\<close>

definition init :: "'t \<Rightarrow> string \<Rightarrow> 't blockchain" where
  "init now nid =
     fst (create_block now
            \<lparr> blockchain.transactions = [], chain = [], nodes = {}, node_id = nid \<rparr> 0 ''00'')"

text \<open>\<^verbatim>\<open>verify_transaction_signature\<close>.\<close>

definition verify_transaction_signature ::
  "('k, 't) env \<Rightarrow> string \<Rightarrow> string \<Rightarrow> transaction \<Rightarrow> error + bool" where
  "verify_transaction_signature E sender_public_key signature tx =
     (case unhexlify sender_public_key of
        Inl e \<Rightarrow> Inl e
      | Inr key_bytes \<Rightarrow>
          (case importKey E key_bytes of
             Inl e \<Rightarrow> Inl e
           | Inr public_key \<Rightarrow>
               (let h = str_transaction E tx in
                (case unhexlify signature of
                   Inl e \<Rightarrow> (if is_ValueError e then Inr False else Inl e)
                 | Inr sig_bytes \<Rightarrow>
                     (case pkcs1_verify E public_key h sig_bytes of
                        Inl e \<Rightarrow> (if is_ValueError e then Inr False else Inl e)
                      | Inr _ \<Rightarrow> Inr True)))))"

text \<open>What \<^verbatim>\<open>submit_transaction\<close> returns: a block number, or \<^verbatim>\<open>False\<close>.\<close>

datatype submit_result = BlockNumber nat | Rejected

definition submit_transaction ::
  "('k, 't) env \<Rightarrow> 't blockchain \<Rightarrow> string \<Rightarrow> string \<Rightarrow> string \<Rightarrow> pyval
     \<Rightarrow> error + ('t blockchain \<times> submit_result)" where
  "submit_transaction E st sender_public_key recipient_public_key signature amount =
     (let tx = [(''sender_public_key'', StrV sender_public_key),
                (''recipient_public_key'', StrV recipient_public_key),
                (''amount'', amount)]
      in if sender_public_key = MINING_SENDER then
           Inr (st \<lparr> blockchain.transactions := blockchain.transactions st @ [tx] \<rparr>,
                BlockNumber (length (chain st) + 1))
         else
           (case verify_transaction_signature E sender_public_key signature tx of
              Inl e \<Rightarrow> Inl e
            | Inr signature_verification \<Rightarrow>
                if signature_verification then
                  Inr (st \<lparr> blockchain.transactions := blockchain.transactions st @ [tx] \<rparr>,
                       BlockNumber (length (chain st) + 1))
                else Inr (st, Rejected)))"

text \<open>\<^verbatim>\<open>valid_proof\<close> and \<^verbatim>\<open>hash\<close>.\<close>

definition valid_proof ::
  "('k, 't) env \<Rightarrow> transaction list \<Rightarrow> string \<Rightarrow> nat \<Rightarrow> int \<Rightarrow> bool" where
  "valid_proof E txs last_hash nonce' difficulty =
     (let guess = str_transactions E txs @ last_hash @ str_nat nonce';
          guess_hash = sha256_hexdigest E guess
      in py_prefix difficulty guess_hash = py_zeros difficulty)"

definition hash :: "('k, 't) env \<Rightarrow> 't block \<Rightarrow> string" where
  "hash E blk = sha256_hexdigest E (json_dumps E blk)"

text \<open>
  \<^verbatim>\<open>proof_of_work\<close>: the \<^verbatim>\<open>while\<close> loop counts up from the nonce it is given until
  \<^verbatim>\<open>valid_proof\<close>, called with its default difficulty, holds. Nothing bounds the loop, so
  not returning is the value \<open>None\<close>.
\<close>

partial_function (option) proof_of_work_loop ::
  "('k, 't) env \<Rightarrow> transaction list \<Rightarrow> string \<Rightarrow> nat \<Rightarrow> nat option" where
  "proof_of_work_loop E txs last_hash nonce' =
     (if valid_proof E txs last_hash nonce' MINING_DIFFICULTY then Some nonce'
      else proof_of_work_loop E txs last_hash (nonce' + 1))"

declare proof_of_work_loop.simps [code]

definition proof_of_work :: "('k, 't) env \<Rightarrow> 't blockchain \<Rightarrow> (error + nat) option" where
  "proof_of_work E st =
     (case chain st of
        [] \<Rightarrow> Some (Inl IndexError)
      | _ # _ \<Rightarrow>
          (let last_block = last (chain st);
               last_hash = hash E last_block
           in map_option Inr (proof_of_work_loop E (blockchain.transactions st) last_hash 0)))"

text \<open>
  \<^verbatim>\<open>valid_chain\<close>. Each transaction but the last of a block is rebuilt from its three
  fields; a missing field raises \<^verbatim>\<open>KeyError\<close>.
\<close>

definition lookup_key :: "transaction \<Rightarrow> string \<Rightarrow> error + pyval" where
  "lookup_key tx k = (case map_of tx k of None \<Rightarrow> Inl (KeyError k) | Some v \<Rightarrow> Inr v)"

definition rebuild :: "transaction \<Rightarrow> error + transaction" where
  "rebuild tx =
     (case lookup_key tx ''sender_public_key'' of
        Inl e \<Rightarrow> Inl e
      | Inr s \<Rightarrow>
          (case lookup_key tx ''recipient_public_key'' of
             Inl e \<Rightarrow> Inl e
           | Inr r \<Rightarrow>
               (case lookup_key tx ''amount'' of
                  Inl e \<Rightarrow> Inl e
                | Inr a \<Rightarrow>
                    Inr [(''sender_public_key'', s),
                         (''recipient_public_key'', r),
                         (''amount'', a)])))"

fun rebuild_all :: "transaction list \<Rightarrow> error + transaction list" where
  "rebuild_all [] = Inr []"
| "rebuild_all (tx # txs) =
     (case rebuild tx of
        Inl e \<Rightarrow> Inl e
      | Inr tx' \<Rightarrow>
          (case rebuild_all txs of
             Inl e \<Rightarrow> Inl e
           | Inr txs' \<Rightarrow> Inr (tx' # txs')))"

function valid_chain_loop ::
  "('k, 't) env \<Rightarrow> 't block list \<Rightarrow> 't block \<Rightarrow> nat \<Rightarrow> error + bool" where
  "valid_chain_loop E given_chain last_block current_index =
     (if current_index < length given_chain then
        (let blk = given_chain ! current_index in
         if previous_hash blk \<noteq> hash E last_block then Inr False
         else
           (case rebuild_all (butlast (block.transactions blk)) of
              Inl e \<Rightarrow> Inl e
            | Inr txs \<Rightarrow>
                if \<not> valid_proof E txs (previous_hash blk) (nonce blk) MINING_DIFFICULTY
                then Inr False
                else valid_chain_loop E given_chain blk (current_index + 1)))
      else Inr True)"
  by pat_completeness auto
termination
  by (relation "measure (\<lambda>(E, given_chain, last_block, current_index).
                            length given_chain - current_index)") auto

declare valid_chain_loop.simps [simp del]

definition valid_chain :: "('k, 't) env \<Rightarrow> 't block list \<Rightarrow> error + bool" where
  "valid_chain E given_chain =
     (case given_chain of
        [] \<Rightarrow> Inl IndexError
      | last_block # _ \<Rightarrow> valid_chain_loop E given_chain last_block 1)"

text \<open>
  \<^verbatim>\<open>resolve_conflicts\<close>. The outcome of \<^verbatim>\<open>requests.get\<close> for one peer is either an
  exception of the transport or a response with its status code and the \<^verbatim>\<open>length\<close> and
  \<^verbatim>\<open>chain\<close> entries of its body. The operation takes these outcomes in the order in which
  the loop visits the peers.
\<close>

datatype 't response =
    Unreachable
  | Response (status_code: nat) (resp_length: nat) (resp_chain: "'t block list")

text \<open>
  The variable \<^verbatim>\<open>max_length\<close> starts as an integer and is assigned the adopted chain itself;
  comparing an integer with a list raises \<^verbatim>\<open>TypeError\<close>.
\<close>

datatype 't max_length = Length nat | ChainObject "'t block list"

definition resolve_step ::
  "('k, 't) env \<Rightarrow> 't max_length \<times> 't block list option \<Rightarrow> 't response
     \<Rightarrow> error + ('t max_length \<times> 't block list option)" where
  "resolve_step E acc response =
     (case response of
        Unreachable \<Rightarrow> Inl ConnectionError
      | Response status external_length external_chain \<Rightarrow>
          if status = 200 then
            (case fst acc of
               ChainObject _ \<Rightarrow> Inl TypeError
             | Length m \<Rightarrow>
                 if external_length > m then
                   (case valid_chain E external_chain of
                      Inl e \<Rightarrow> Inl e
                    | Inr ok \<Rightarrow>
                        if ok then Inr (ChainObject external_chain, Some external_chain)
                        else Inr acc)
                 else Inr acc)
          else Inr acc)"

fun resolve_loop ::
  "('k, 't) env \<Rightarrow> 't max_length \<times> 't block list option \<Rightarrow> 't response list
     \<Rightarrow> error + ('t max_length \<times> 't block list option)" where
  "resolve_loop E acc [] = Inr acc"
| "resolve_loop E acc (response # rest) =
     (case resolve_step E acc response of
        Inl e \<Rightarrow> Inl e
      | Inr acc' \<Rightarrow> resolve_loop E acc' rest)"

definition resolve_conflicts ::
  "('k, 't) env \<Rightarrow> 't blockchain \<Rightarrow> 't response list \<Rightarrow> error + ('t blockchain \<times> bool)" where
  "resolve_conflicts E st responses =
     (case resolve_loop E (Length (length (chain st)), None) responses of
        Inl e \<Rightarrow> Inl e
      | Inr (max_length, new_chain) \<Rightarrow>
          (case new_chain of
             None \<Rightarrow> Inr (st, False)
           | Some c \<Rightarrow> if c \<noteq> [] then Inr (st \<lparr> chain := c \<rparr>, True) else Inr (st, False)))"

text \<open>
  \<^verbatim>\<open>register_node\<close>. The parser is a parameter: it gives the \<^verbatim>\<open>netloc\<close> and the
  \<^verbatim>\<open>path\<close> of the address.
\<close>

definition register_node ::
  "(string \<Rightarrow> string \<times> string) \<Rightarrow> 't blockchain \<Rightarrow> string \<Rightarrow> error + 't blockchain" where
  "register_node urlparse st node_url =
     (let (netloc, path) = urlparse node_url
      in if netloc \<noteq> [] then Inr (st \<lparr> nodes := insert netloc (nodes st) \<rparr>)
         else if path \<noteq> [] then Inr (st \<lparr> nodes := insert path (nodes st) \<rparr>)
         else Inl ValueError)"

text \<open>
  The \<^verbatim>\<open>/mine\<close> handler: proof of work over the pending pool, the reward transaction, then
  the new block with the hash of the last one.
\<close>

definition mine ::
  "('k, 't) env \<Rightarrow> 't \<Rightarrow> 't blockchain \<Rightarrow> (error + ('t blockchain \<times> 't block)) option" where
  "mine E now st =
     (case proof_of_work E st of
        None \<Rightarrow> None
      | Some (Inl e) \<Rightarrow> Some (Inl e)
      | Some (Inr nonce') \<Rightarrow>
          (case submit_transaction E st MINING_SENDER (node_id st) [] (IntV MINING_REWARD) of
             Inl e \<Rightarrow> Some (Inl e)
           | Inr (st1, _) \<Rightarrow>
               (case chain st1 of
                  [] \<Rightarrow> Some (Inl IndexError)
                | _ # _ \<Rightarrow>
                    (let last_block = last (chain st1);
                         previous_hash' = hash E last_block
                     in Some (Inr (create_block now st1 nonce' previous_hash'))))))"

section \<open>Concrete library functions for evaluation\<close>

text \<open>
  The operations above hold for any library. To run them on concrete inputs the following
  stand-ins are used: a digest that starts with two zeros exactly when its input ends in
  the digit 3, a serialisation of blocks and transactions, and a key check that accepts a
  signature equal to the key bytes and reports a mismatch by returning \<open>False\<close>.
\<close>

definition demo_sha256 :: "string \<Rightarrow> string" where
  "demo_sha256 s =
     (if s \<noteq> [] \<and> last s = CHR ''3'' then ''00'' else ''7f'') @ str_nat (length s)"

definition demo_str_value :: "pyval \<Rightarrow> string" where
  "demo_str_value v = (case v of IntV i \<Rightarrow> str_nat (nat i) | StrV s \<Rightarrow> s)"

definition demo_str_transaction :: "transaction \<Rightarrow> string" where
  "demo_str_transaction tx = concat (map (\<lambda>(k, v). k @ ''='' @ demo_str_value v @ '';'') tx)"

definition demo_json_dumps :: "nat block \<Rightarrow> string" where
  "demo_json_dumps blk =
     str_nat (block_number blk) @ '','' @ str_nat (nonce blk) @ '','' @ previous_hash blk @ '',''
       @ concat (map demo_str_transaction (block.transactions blk)) @ '','' @ str_nat (timestamp blk)"

definition demo_env :: "(nat list, nat) env" where
  "demo_env =
     \<lparr> sha256_hexdigest = demo_sha256,
       json_dumps = demo_json_dumps,
       str_transactions = (\<lambda>txs. concat (map demo_str_transaction txs)),
       str_transaction = demo_str_transaction,
       importKey = (\<lambda>bs. if bs = [] then Inl ValueError else Inr bs),
       pkcs1_verify = (\<lambda>k msg sg. Inr (sg = k)) \<rparr>"

text \<open>
  The \<^verbatim>\<open>netloc\<close> and \<^verbatim>\<open>path\<close> that \<^verbatim>\<open>urllib.parse.urlparse\<close> gives for an address
  without parameters: a scheme is a letter followed by letters, digits, \<open>+\<close>, \<open>-\<close> or \<open>.\<close> up
  to the first colon; after \<open>//\<close> the netloc runs to the first \<open>/\<close>, \<open>?\<close> or \<open>#\<close>; the path
  runs to the first \<open>?\<close> or \<open>#\<close>.
\<close>

definition is_alpha :: "char \<Rightarrow> bool" where
  "is_alpha c = (let n = of_char c :: nat in (65 \<le> n \<and> n \<le> 90) \<or> (97 \<le> n \<and> n \<le> 122))"

definition is_scheme_char :: "char \<Rightarrow> bool" where
  "is_scheme_char c =
     (let n = of_char c :: nat
      in is_alpha c \<or> (48 \<le> n \<and> n \<le> 57) \<or> c = CHR ''+'' \<or> c = CHR ''-'' \<or> c = CHR ''.'')"

definition strip_scheme :: "string \<Rightarrow> string" where
  "strip_scheme url =
     (let pre = takeWhile (\<lambda>c. c \<noteq> CHR '':'') url
      in if length pre < length url \<and> pre \<noteq> [] \<and> is_alpha (hd pre) \<and> list_all is_scheme_char pre
         then drop (length pre + 1) url
         else url)"

definition urlparse :: "string \<Rightarrow> string \<times> string" where
  "urlparse url =
     (let rest = strip_scheme url;
          is_delim = (\<lambda>c. c = CHR ''/'' \<or> c = CHR ''?'' \<or> c = CHR ''#'');
          netloc = (if take 2 rest = ''//'' then takeWhile (\<lambda>c. \<not> is_delim c) (drop 2 rest) else []);
          rest' = (if take 2 rest = ''//'' then dropWhile (\<lambda>c. \<not> is_delim c) (drop 2 rest) else rest);
          path = takeWhile (\<lambda>c. c \<noteq> CHR ''?'' \<and> c \<noteq> CHR ''#'') rest'
      in (netloc, path))"

text \<open>
  The states a node reaches by the local flow alone: start-up, submitted transactions and
  the \<^verbatim>\<open>/mine\<close> handler.
\<close>

inductive local_flow :: "('k, 't) env \<Rightarrow> 't blockchain \<Rightarrow> bool" for E :: "('k, 't) env" where
  started: "local_flow E (init now nid)"
| submitted: "local_flow E st \<Longrightarrow> submit_transaction E st s r sg a = Inr (st', res)
     \<Longrightarrow> local_flow E st'"
| mined: "local_flow E st \<Longrightarrow> mine E now st = Some (Inr (st', blk)) \<Longrightarrow> local_flow E st'"

text \<open>The chain of the stand-in node after one call of \<^verbatim>\<open>/mine\<close> at time 7.\<close>

definition demo_chain2 :: "nat block list" where
  "demo_chain2 =
     [\<lparr> block_number = 1, timestamp = 0, block.transactions = [], nonce = 0,
        previous_hash = ''00'' \<rparr>,
      \<lparr> block_number = 2, timestamp = 7,
        block.transactions = [[(''sender_public_key'', StrV ''The Blockchain''),
                               (''recipient_public_key'', StrV ''n''),
                               (''amount'', IntV 1)]],
        nonce = 3, previous_hash = ''7f9'' \<rparr>]"

section \<open>Theorems\<close>

subsection \<open>Proof of work\<close>

lemma proof_of_work_loop_found:
  "valid_proof E txs lh (n + k) MINING_DIFFICULTY \<Longrightarrow>
   \<forall>j<k. \<not> valid_proof E txs lh (n + j) MINING_DIFFICULTY \<Longrightarrow>
   proof_of_work_loop E txs lh n = Some (n + k)"
proof (induction k arbitrary: n)
  case 0
  then show ?case by (subst proof_of_work_loop.simps) simp
next
  case (Suc k)
  from Suc.prems(2) have n0: "\<not> valid_proof E txs lh n MINING_DIFFICULTY"
    by (metis add.right_neutral zero_less_Suc)
  have v: "valid_proof E txs lh (Suc n + k) MINING_DIFFICULTY"
    using Suc.prems(1) by simp
  have nv: "\<forall>j<k. \<not> valid_proof E txs lh (Suc n + j) MINING_DIFFICULTY"
  proof (intro allI impI)
    fix j assume "j < k"
    then have "Suc j < Suc k" by simp
    with Suc.prems(2) have "\<not> valid_proof E txs lh (n + Suc j) MINING_DIFFICULTY" by blast
    then show "\<not> valid_proof E txs lh (Suc n + j) MINING_DIFFICULTY" by simp
  qed
  have "proof_of_work_loop E txs lh (Suc n) = Some (Suc n + k)"
    by (rule Suc.IH [OF v nv])
  with n0 show ?case by (subst proof_of_work_loop.simps) simp
qed

lemma proof_of_work_loop_sound:
  assumes run: "proof_of_work_loop E txs lh n = Some m"
  shows "valid_proof E txs lh m MINING_DIFFICULTY"
  by (rule proof_of_work_loop.raw_induct
        [rotated 1, where P = "\<lambda>E txs lh n m. valid_proof E txs lh m MINING_DIFFICULTY", OF run])
     (auto split: if_splits)

text \<open>
  C5 (amended): \<^verbatim>\<open>proof_of_work\<close> takes no difficulty; it searches at the fixed
  \<open>MINING_DIFFICULTY = 2\<close>. When some nonce solves the puzzle at that difficulty for the
  pending pool and the hash of the last block, the search returns, and it returns the least
  such nonce: the predicate at that difficulty holds for it and fails for every smaller one.
\<close>

theorem proof_of_work_least:
  assumes ne: "chain st \<noteq> []"
      and sol: "valid_proof E (blockchain.transactions st) (hash E (last (chain st))) m MINING_DIFFICULTY"
  shows "\<exists>n. proof_of_work E st = Some (Inr n)
           \<and> valid_proof E (blockchain.transactions st) (hash E (last (chain st))) n MINING_DIFFICULTY
           \<and> (\<forall>n'<n. \<not> valid_proof E (blockchain.transactions st) (hash E (last (chain st))) n' MINING_DIFFICULTY)"
proof -
  let ?P = "\<lambda>n. valid_proof E (blockchain.transactions st) (hash E (last (chain st))) n MINING_DIFFICULTY"
  define n where "n = (LEAST n. ?P n)"
  have Pn: "?P n" unfolding n_def using sol by (rule LeastI)
  have least: "\<forall>n'<n. \<not> ?P n'" unfolding n_def using not_less_Least by blast
  have "proof_of_work_loop E (blockchain.transactions st) (hash E (last (chain st))) 0 = Some (0 + n)"
    by (rule proof_of_work_loop_found) (use Pn least in simp_all)
  then have "proof_of_work E st = Some (Inr n)"
    using ne by (cases "chain st") (simp_all add: proof_of_work_def)
  with Pn least show ?thesis by blast
qed

theorem proof_of_work_least_witness:
  "chain (init (0::nat) ''n'') \<noteq> []
   \<and> valid_proof demo_env (blockchain.transactions (init (0::nat) ''n''))
        (hash demo_env (last (chain (init (0::nat) ''n'')))) 5 MINING_DIFFICULTY = False
   \<and> valid_proof demo_env (blockchain.transactions (init (0::nat) ''n''))
        (hash demo_env (last (chain (init (0::nat) ''n'')))) 13 MINING_DIFFICULTY
   \<and> (\<exists>n. proof_of_work demo_env (init (0::nat) ''n'') = Some (Inr n)
          \<and> valid_proof demo_env (blockchain.transactions (init (0::nat) ''n''))
               (hash demo_env (last (chain (init (0::nat) ''n'')))) n MINING_DIFFICULTY
          \<and> (\<forall>n'<n. \<not> valid_proof demo_env (blockchain.transactions (init (0::nat) ''n''))
               (hash demo_env (last (chain (init (0::nat) ''n'')))) n' MINING_DIFFICULTY))"
proof -
  have h1: "chain (init (0::nat) ''n'') \<noteq> []" by code_simp
  have h2: "valid_proof demo_env (blockchain.transactions (init (0::nat) ''n''))
        (hash demo_env (last (chain (init (0::nat) ''n'')))) 13 MINING_DIFFICULTY" by code_simp
  have h3: "valid_proof demo_env (blockchain.transactions (init (0::nat) ''n''))
        (hash demo_env (last (chain (init (0::nat) ''n'')))) 5 MINING_DIFFICULTY = False" by code_simp
  from proof_of_work_least [OF h1 h2] h1 h2 h3 show ?thesis by blast
qed

text \<open>
  The claim as stated, for every difficulty, fails at difficulty 0: there every nonce is a
  solution, nonce 0 among them, and the search still returns 3, the least solution at
  difficulty 2.
\<close>

theorem proof_of_work_difficulty_counterexample:
  "proof_of_work demo_env (init (0::nat) ''n'') = Some (Inr 3)
   \<and> valid_proof demo_env (blockchain.transactions (init (0::nat) ''n''))
        (hash demo_env (last (chain (init (0::nat) ''n'')))) 0 0
   \<and> (0::nat) < 3"
  by code_simp

subsection \<open>Chain validation\<close>

text \<open>
  C10: a candidate chain of exactly one block is valid whatever the block holds; the first
  block is only the anchor for the blocks after it.
\<close>

theorem valid_chain_single: "valid_chain E [b] = Inr True"
  by (simp add: valid_chain_def valid_chain_loop.simps)

lemma rebuild_three_fields:
  "rebuild [(''sender_public_key'', x), (''recipient_public_key'', y), (''amount'', z)]
     = Inr [(''sender_public_key'', x), (''recipient_public_key'', y), (''amount'', z)]"
  by (simp add: rebuild_def lookup_key_def)

lemma rebuild_all_fixed:
  "\<forall>tx\<in>set txs. rebuild tx = Inr tx \<Longrightarrow> rebuild_all txs = Inr txs"
  by (induction txs) simp_all

lemma valid_chain_loop_end:
  "length c \<le> i \<Longrightarrow> valid_chain_loop E c lb i = Inr True"
  by (subst valid_chain_loop.simps) simp

lemma valid_chain_loop_append:
  "0 < i \<Longrightarrow> i \<le> length c \<Longrightarrow> lb = c ! (i - 1) \<Longrightarrow>
   valid_chain_loop E c lb i = Inr True \<Longrightarrow>
   valid_chain_loop E (c @ [b]) lb i = valid_chain_loop E (c @ [b]) (last c) (length c)"
proof (induction E c lb i rule: valid_chain_loop.induct)
  case (1 E c lb i)
  show ?case
  proof (cases "i < length c")
    case False
    with "1.prems" have il: "i = length c" by simp
    with "1.prems" have "c \<noteq> []" by auto
    then have "last c = c ! (length c - 1)" by (rule last_conv_nth)
    with il "1.prems"(3) show ?thesis by simp
  next
    case True
    let ?blk = "c ! i"
    from True "1.prems"(4) have ph: "previous_hash ?blk = hash E lb"
      by (subst (asm) valid_chain_loop.simps) (simp add: Let_def split: if_splits)
    from True "1.prems"(4) ph obtain txs where
      rb: "rebuild_all (butlast (block.transactions ?blk)) = Inr txs"
      by (subst (asm) valid_chain_loop.simps) (auto simp: Let_def split: sum.splits)
    from True "1.prems"(4) ph rb have
      vp: "valid_proof E txs (previous_hash ?blk) (nonce ?blk) MINING_DIFFICULTY"
      by (subst (asm) valid_chain_loop.simps) (auto simp: Let_def split: if_splits)
    from True "1.prems"(4) ph rb vp have
      nxt: "valid_chain_loop E c ?blk (i + 1) = Inr True"
      by (subst (asm) valid_chain_loop.simps) (simp add: Let_def)
    have nv: "\<not> \<not> valid_proof E txs (previous_hash ?blk) (nonce ?blk) MINING_DIFFICULTY"
      using vp by simp
    have p1: "0 < i + 1" by simp
    have p2: "i + 1 \<le> length c" using True by simp
    have p3: "?blk = c ! (i + 1 - 1)" by simp
    have IH: "valid_chain_loop E (c @ [b]) ?blk (i + 1)
                = valid_chain_loop E (c @ [b]) (last c) (length c)"
      by (rule "1.IH" [OF True refl _ rb nv p1 p2 p3 nxt]) (simp add: ph)
    have "valid_chain_loop E (c @ [b]) lb i = valid_chain_loop E (c @ [b]) ?blk (i + 1)"
      using True ph rb vp
      by (subst valid_chain_loop.simps) (simp add: Let_def nth_append)
    with IH show ?thesis by simp
  qed
qed

lemma valid_chain_append:
  assumes ne: "c \<noteq> []"
      and ok: "valid_chain E c = Inr True"
      and ph: "previous_hash b = hash E (last c)"
      and rb: "rebuild_all (butlast (block.transactions b)) = Inr txs"
      and vp: "valid_proof E txs (previous_hash b) (nonce b) MINING_DIFFICULTY"
  shows "valid_chain E (c @ [b]) = Inr True"
proof -
  from ne obtain g rest where c: "c = g # rest" by (cases c) auto
  from ok c have l: "valid_chain_loop E c g 1 = Inr True" by (simp add: valid_chain_def)
  have "valid_chain_loop E (c @ [b]) g 1 = valid_chain_loop E (c @ [b]) (last c) (length c)"
    by (rule valid_chain_loop_append [OF _ _ _ l]) (simp_all add: c)
  also have "\<dots> = valid_chain_loop E (c @ [b]) b (length c + 1)"
    using ph rb vp by (subst valid_chain_loop.simps) (simp add: Let_def)
  also have "\<dots> = Inr True" by (rule valid_chain_loop_end) simp
  finally show ?thesis by (simp add: valid_chain_def c)
qed

lemma submit_transaction_inv:
  assumes "submit_transaction E st s r sg a = Inr (st', res)"
      and "\<forall>tx\<in>set (blockchain.transactions st). rebuild tx = Inr tx"
  shows "chain st' = chain st \<and> (\<forall>tx\<in>set (blockchain.transactions st'). rebuild tx = Inr tx)"
  using assms
  by (auto simp: submit_transaction_def Let_def rebuild_three_fields
           split: if_splits sum.splits)

lemma mine_inv:
  assumes m: "mine E now st = Some (Inr (st', blk))"
      and ne: "chain st \<noteq> []"
      and ok: "valid_chain E (chain st) = Inr True"
      and wf: "\<forall>tx\<in>set (blockchain.transactions st). rebuild tx = Inr tx"
  shows "chain st' \<noteq> [] \<and> valid_chain E (chain st') = Inr True
         \<and> (\<forall>tx\<in>set (blockchain.transactions st'). rebuild tx = Inr tx)"
proof -
  let ?lh = "hash E (last (chain st))"
  let ?reward = "[(''sender_public_key'', StrV MINING_SENDER),
                  (''recipient_public_key'', StrV (node_id st)),
                  (''amount'', IntV MINING_REWARD)]"
  from m obtain n where pw: "proof_of_work E st = Some (Inr n)"
    by (auto simp: mine_def split: option.splits sum.splits)
  from pw ne have "proof_of_work_loop E (blockchain.transactions st) ?lh 0 = Some n"
    by (cases "chain st") (auto simp: proof_of_work_def)
  then have vp: "valid_proof E (blockchain.transactions st) ?lh n MINING_DIFFICULTY"
    by (rule proof_of_work_loop_sound)
  define b where "b = \<lparr> block_number = length (chain st) + 1, timestamp = now,
                        block.transactions = blockchain.transactions st @ [?reward],
                        nonce = n, previous_hash = ?lh \<rparr>"
  from m pw ne have st': "st' = st \<lparr> blockchain.transactions := [], chain := chain st @ [b] \<rparr>"
    by (cases "chain st")
       (auto simp: mine_def submit_transaction_def create_block_def Let_def b_def)
  have rb: "rebuild_all (butlast (block.transactions b)) = Inr (blockchain.transactions st)"
    using wf by (simp add: b_def rebuild_all_fixed)
  have "valid_chain E (chain st @ [b]) = Inr True"
    by (rule valid_chain_append [OF ne ok _ rb]) (simp_all add: b_def vp)
  then show ?thesis by (simp add: st')
qed

lemma demo_mine:
  "mine demo_env 7 (init 0 ''n'') =
     Some (Inr (\<lparr> blockchain.transactions = [], chain = demo_chain2, nodes = {}, node_id = ''n'' \<rparr>,
                demo_chain2 ! 1))"
  by code_simp

text \<open>
  C1: every state reached by the local flow (start-up, submissions, and mining with
  \<^verbatim>\<open>proof_of_work\<close>, the reward transaction and \<^verbatim>\<open>create_block\<close>) has a chain
  that passes \<^verbatim>\<open>valid_chain\<close>.
\<close>

theorem locally_mined_chain_valid:
  "local_flow E st \<Longrightarrow> valid_chain E (chain st) = Inr True"
proof -
  assume lf: "local_flow E st"
  then have "chain st \<noteq> [] \<and> valid_chain E (chain st) = Inr True
         \<and> (\<forall>tx\<in>set (blockchain.transactions st). rebuild tx = Inr tx)"
  proof (induction rule: local_flow.induct)
    case (started now nid)
    then show ?case
      by (simp add: init_def create_block_def Let_def valid_chain_def valid_chain_loop.simps)
  next
    case (submitted st s r sg a st' res)
    with submit_transaction_inv [OF submitted.hyps(2)] show ?case by simp
  next
    case (mined st now st' blk)
    with mine_inv [OF mined.hyps(2)] show ?case by simp
  qed
  then show ?thesis by simp
qed

theorem locally_mined_chain_valid_witness:
  "local_flow demo_env
     \<lparr> blockchain.transactions = [], chain = demo_chain2, nodes = {}, node_id = ''n'' \<rparr>
   \<and> valid_chain demo_env
       (chain \<lparr> blockchain.transactions = [], chain = demo_chain2, nodes = {}, node_id = ''n'' \<rparr>)
     = Inr True"
proof -
  have lf: "local_flow demo_env
     \<lparr> blockchain.transactions = [], chain = demo_chain2, nodes = {}, node_id = ''n'' \<rparr>"
    by (rule local_flow.mined [OF local_flow.started demo_mine])
  from locally_mined_chain_valid [OF lf] lf show ?thesis by simp
qed

subsection \<open>Transactions\<close>

text \<open>
  C4 (the code differs): \<^verbatim>\<open>verify_transaction_signature\<close> decodes and imports the
  sender key before its \<^verbatim>\<open>try\<close> block, so a key that is not hexadecimal raises
  \<^verbatim>\<open>binascii.Error\<close> to the caller instead of giving \<open>False\<close>.
\<close>

theorem verify_key_raises:
  "verify_transaction_signature E ''zz'' sg tx = Inl BinasciiError"
  by (simp add: verify_transaction_signature_def hexval_def)

text \<open>
  C6: a submission whose sender is the mining sentinel is appended to the pending pool
  whatever the library and the signature are, and the call returns the chain length plus
  one; for any other sender the transaction is appended when the verifier returns
  \<open>True\<close>, and otherwise a call that returns leaves the state as it was and rejects.
\<close>

theorem submit_transaction_admission:
  "submit_transaction E st MINING_SENDER r sg a =
     Inr (st \<lparr> blockchain.transactions := blockchain.transactions st @
                  [[(''sender_public_key'', StrV MINING_SENDER),
                    (''recipient_public_key'', StrV r),
                    (''amount'', a)]] \<rparr>,
          BlockNumber (length (chain st) + 1))
   \<and> (s \<noteq> MINING_SENDER \<longrightarrow>
        (verify_transaction_signature E s sg
           [(''sender_public_key'', StrV s), (''recipient_public_key'', StrV r), (''amount'', a)]
           = Inr True
         \<longrightarrow> submit_transaction E st s r sg a =
               Inr (st \<lparr> blockchain.transactions := blockchain.transactions st @
                            [[(''sender_public_key'', StrV s),
                              (''recipient_public_key'', StrV r),
                              (''amount'', a)]] \<rparr>,
                    BlockNumber (length (chain st) + 1)))
        \<and> (verify_transaction_signature E s sg
             [(''sender_public_key'', StrV s), (''recipient_public_key'', StrV r), (''amount'', a)]
             \<noteq> Inr True
           \<longrightarrow> (\<forall>st' res. submit_transaction E st s r sg a = Inr (st', res) \<longrightarrow>
                  st' = st \<and> res = Rejected)))"
  by (auto simp: submit_transaction_def Let_def split: sum.splits)

theorem submit_transaction_admission_witness:
  "submit_transaction demo_env (init 0 ''n'') MINING_SENDER ''n'' [] (IntV 1) =
     Inr ((init 0 ''n'') \<lparr> blockchain.transactions :=
                  [[(''sender_public_key'', StrV MINING_SENDER),
                    (''recipient_public_key'', StrV ''n''),
                    (''amount'', IntV 1)]] \<rparr>,
          BlockNumber 2)
   \<and> ''0a'' \<noteq> MINING_SENDER
   \<and> verify_transaction_signature demo_env ''0a'' ''0a''
        [(''sender_public_key'', StrV ''0a''), (''recipient_public_key'', StrV ''r''),
         (''amount'', StrV ''5'')] = Inr True
   \<and> submit_transaction demo_env (init 0 ''n'') ''0a'' ''r'' ''0a'' (StrV ''5'') =
       Inr ((init 0 ''n'') \<lparr> blockchain.transactions :=
                  [[(''sender_public_key'', StrV ''0a''),
                    (''recipient_public_key'', StrV ''r''),
                    (''amount'', StrV ''5'')]] \<rparr>,
            BlockNumber 2)
   \<and> verify_transaction_signature demo_env ''0a'' ''0''
        [(''sender_public_key'', StrV ''0a''), (''recipient_public_key'', StrV ''r''),
         (''amount'', StrV ''5'')] \<noteq> Inr True
   \<and> submit_transaction demo_env (init 0 ''n'') ''0a'' ''r'' ''0'' (StrV ''5'') =
       Inr (init 0 ''n'', Rejected)"
proof -
  have ne: "''0a'' \<noteq> MINING_SENDER" by (simp add: MINING_SENDER_def)
  have ok: "verify_transaction_signature demo_env ''0a'' ''0a''
        [(''sender_public_key'', StrV ''0a''), (''recipient_public_key'', StrV ''r''),
         (''amount'', StrV ''5'')] = Inr True"
    by (simp add: verify_transaction_signature_def demo_env_def hexval_def)
  have bad: "verify_transaction_signature demo_env ''0a'' ''0''
        [(''sender_public_key'', StrV ''0a''), (''recipient_public_key'', StrV ''r''),
         (''amount'', StrV ''5'')] \<noteq> Inr True"
    by (simp add: verify_transaction_signature_def demo_env_def hexval_def)
  have len: "length (chain (init (0::nat) ''n'')) = 1"
       and pend: "blockchain.transactions (init (0::nat) ''n'') = []"
    by (simp_all add: init_def create_block_def Let_def)
  have rej: "submit_transaction demo_env (init 0 ''n'') ''0a'' ''r'' ''0'' (StrV ''5'') =
       Inr (init 0 ''n'', Rejected)"
    by (simp add: submit_transaction_def verify_transaction_signature_def demo_env_def
          hexval_def MINING_SENDER_def)
  from submit_transaction_admission [of demo_env "init 0 ''n''" "''n''" "[]" "IntV 1" "''0a''"]
       submit_transaction_admission [of demo_env "init 0 ''n''" "''r''" "''0a''" "StrV ''5''" "''0a''"]
       submit_transaction_admission [of demo_env "init 0 ''n''" "''r''" "''0''" "StrV ''5''" "''0a''"]
       ne ok bad len pend rej
  show ?thesis by simp
qed

text \<open>
  C7 (the code differs): \<^verbatim>\<open>verify_transaction_signature\<close> calls
  \<^verbatim>\<open>verifier.verify\<close> inside a \<^verbatim>\<open>try\<close> and drops what it returns. When the key and
  the signature decode and the library reports the mismatch by returning \<open>False\<close>, the
  verifier answers \<open>True\<close> and \<^verbatim>\<open>submit_transaction\<close> appends the transaction to
  the pending pool and returns a block number instead of the rejection.
\<close>

theorem submit_transaction_mismatch_accepted:
  assumes ns: "s \<noteq> MINING_SENDER"
      and tx: "tx = [(''sender_public_key'', StrV s), (''recipient_public_key'', StrV r),
                     (''amount'', a)]"
      and key: "unhexlify s = Inr key_bytes"
      and imp: "importKey E key_bytes = Inr k"
      and sig: "unhexlify sg = Inr sig_bytes"
      and mismatch: "pkcs1_verify E k (str_transaction E tx) sig_bytes = Inr False"
  shows "verify_transaction_signature E s sg tx = Inr True
         \<and> submit_transaction E st s r sg a =
             Inr (st \<lparr> blockchain.transactions := blockchain.transactions st @ [tx] \<rparr>,
                  BlockNumber (length (chain st) + 1))"
proof -
  have v: "verify_transaction_signature E s sg tx = Inr True"
    using key imp sig mismatch by (simp add: verify_transaction_signature_def)
  then show ?thesis using ns tx by (simp add: submit_transaction_def)
qed

theorem submit_transaction_mismatch_accepted_witness:
  "''0a'' \<noteq> MINING_SENDER
   \<and> unhexlify ''0a'' = Inr [10]
   \<and> importKey demo_env [10] = Inr [10]
   \<and> unhexlify ''0b'' = Inr [11]
   \<and> pkcs1_verify demo_env [10]
        (str_transaction demo_env
           [(''sender_public_key'', StrV ''0a''), (''recipient_public_key'', StrV ''r''),
            (''amount'', StrV ''5'')]) [11] = Inr False
   \<and> verify_transaction_signature demo_env ''0a'' ''0b''
        [(''sender_public_key'', StrV ''0a''), (''recipient_public_key'', StrV ''r''),
         (''amount'', StrV ''5'')] = Inr True
   \<and> submit_transaction demo_env (init 0 ''n'') ''0a'' ''r'' ''0b'' (StrV ''5'') =
       Inr (\<lparr> blockchain.transactions =
                [[(''sender_public_key'', StrV ''0a''),
                  (''recipient_public_key'', StrV ''r''),
                  (''amount'', StrV ''5'')]],
              chain = [\<lparr> block_number = 1, timestamp = 0, block.transactions = [],
                         nonce = 0, previous_hash = ''00'' \<rparr>],
              nodes = {}, node_id = ''n'' \<rparr>,
            BlockNumber 2)"
proof -
  have ns: "''0a'' \<noteq> MINING_SENDER" by (simp add: MINING_SENDER_def)
  have key: "unhexlify ''0a'' = Inr [10]" by (simp add: hexval_def)
  have imp: "importKey demo_env [10] = Inr [10]" by (simp add: demo_env_def)
  have sig: "unhexlify ''0b'' = Inr [11]" by (simp add: hexval_def)
  have mismatch: "pkcs1_verify demo_env [10]
        (str_transaction demo_env
           [(''sender_public_key'', StrV ''0a''), (''recipient_public_key'', StrV ''r''),
            (''amount'', StrV ''5'')]) [11] = Inr False"
    by (simp add: demo_env_def)
  have st: "init (0::nat) ''n'' =
      \<lparr> blockchain.transactions = [],
        chain = [\<lparr> block_number = 1, timestamp = 0, block.transactions = [],
                   nonce = 0, previous_hash = ''00'' \<rparr>],
        nodes = {}, node_id = ''n'' \<rparr>"
    by (simp add: init_def create_block_def Let_def)
  from submit_transaction_mismatch_accepted [OF ns refl key imp sig mismatch, of "init 0 ''n''"]
       ns key imp sig mismatch st
  show ?thesis by simp
qed

subsection \<open>Consensus\<close>

lemma resolve_loop_skip:
  "status \<noteq> 200 \<Longrightarrow>
   resolve_loop E acc (pre @ Response status l c # post) = resolve_loop E acc (pre @ post)"
proof (induction pre arbitrary: acc)
  case Nil
  then show ?case by (simp add: resolve_step_def)
next
  case (Cons p pre)
  then show ?case by (simp split: sum.splits)
qed

lemma resolve_loop_unreachable:
  "\<exists>e. resolve_loop E acc (pre @ Unreachable # post) = Inl e"
proof (induction pre arbitrary: acc)
  case Nil
  then show ?case by (simp add: resolve_step_def)
next
  case (Cons p pre)
  then show ?case by (simp split: sum.splits)
qed

lemma demo_chain2_valid: "valid_chain demo_env demo_chain2 = Inr True"
  by code_simp

text \<open>
  C3 (amended): a peer that answers with a status other than 200 is skipped, and the
  outcome is that of the remaining peers; a peer whose fetch fails in the transport is not
  skipped: \<^verbatim>\<open>resolve_conflicts\<close> then raises.
\<close>

theorem resolve_skips_non_200:
  "(status \<noteq> 200 \<longrightarrow>
      resolve_conflicts E st (pre @ Response status l c # post)
        = resolve_conflicts E st (pre @ post))
   \<and> (\<exists>e. resolve_conflicts E st (pre @ Unreachable # post) = Inl e)"
proof -
  obtain e where "resolve_loop E (Length (length (chain st)), None) (pre @ Unreachable # post) = Inl e"
    using resolve_loop_unreachable by blast
  then show ?thesis by (simp add: resolve_conflicts_def resolve_loop_skip)
qed

theorem resolve_skips_non_200_witness:
  "(404::nat) \<noteq> 200
   \<and> resolve_conflicts demo_env (init 0 ''n'')
        ([Response 503 9 []] @ Response 404 5 [] # [Response 200 2 demo_chain2])
       = resolve_conflicts demo_env (init 0 ''n'')
           ([Response 503 9 []] @ [Response 200 2 demo_chain2])
   \<and> resolve_conflicts demo_env (init 0 ''n'') [Response 503 9 [], Response 200 2 demo_chain2]
       = Inr ((init 0 ''n'') \<lparr> chain := demo_chain2 \<rparr>, True)"
proof -
  have a: "(404::nat) \<noteq> 200" by simp
  have b: "resolve_conflicts demo_env (init 0 ''n'') [Response 503 9 [], Response 200 2 demo_chain2]
       = Inr ((init 0 ''n'') \<lparr> chain := demo_chain2 \<rparr>, True)"
    by (simp add: resolve_conflicts_def resolve_step_def demo_chain2_valid init_def
          create_block_def Let_def) (simp add: demo_chain2_def)
  from resolve_skips_non_200
         [of 404 demo_env "init 0 ''n''" "[Response 503 9 []]" 5 "[]" "[Response 200 2 demo_chain2]"]
       a b
  show ?thesis by simp
qed

text \<open>
  The claim as stated fails: one unreachable peer aborts the resolution although another
  peer would have answered.
\<close>

theorem resolve_unreachable_counterexample:
  "resolve_conflicts demo_env (init 0 ''n'') [Unreachable, Response 200 2 demo_chain2]
     = Inl ConnectionError"
  by (simp add: resolve_conflicts_def resolve_step_def)

text \<open>
  C2 (the code differs): after the first adoption \<^verbatim>\<open>max_length\<close> holds the adopted
  chain, not its length, so the comparison for the next peer that answers with status 200
  raises \<^verbatim>\<open>TypeError\<close> instead of comparing lengths.
\<close>

theorem resolve_max_length_TypeError:
  "valid_chain E c1 = Inr True \<Longrightarrow> length (chain st) < l1 \<Longrightarrow>
   resolve_conflicts E st (Response 200 l1 c1 # Response 200 l2 c2 # rest) = Inl TypeError"
  by (simp add: resolve_conflicts_def resolve_step_def)

theorem resolve_max_length_TypeError_witness:
  "valid_chain demo_env demo_chain2 = Inr True
   \<and> length (chain (init (0::nat) ''n'')) < 2
   \<and> resolve_conflicts demo_env (init 0 ''n'')
        [Response 200 2 demo_chain2, Response 200 2 demo_chain2] = Inl TypeError"
proof -
  have l: "length (chain (init (0::nat) ''n'')) < 2"
    by (simp add: init_def create_block_def Let_def)
  from resolve_max_length_TypeError [OF demo_chain2_valid l, of 2 demo_chain2 "[]"]
       demo_chain2_valid l
  show ?thesis by simp
qed

subsection \<open>Peers\<close>

lemma urlparse_plain: "urlparse ''127.0.0.1:5001'' = ([], ''127.0.0.1:5001'')"
  by (simp add: urlparse_def strip_scheme_def is_alpha_def is_scheme_char_def)

lemma urlparse_http: "urlparse ''http://127.0.0.1:5001'' = (''127.0.0.1:5001'', [])"
  by (simp add: urlparse_def strip_scheme_def is_alpha_def is_scheme_char_def)

lemma urlparse_slash: "urlparse ''127.0.0.1:5001/'' = ([], ''127.0.0.1:5001/'')"
  by (simp add: urlparse_def strip_scheme_def is_alpha_def is_scheme_char_def)

text \<open>
  C9 (amended): two addresses for which the parser gives the same entry (the netloc, or
  the path when the netloc is empty) leave exactly one entry in the peer set; registering
  the same address twice is the special case of equal addresses.
\<close>

theorem register_node_same_entry:
  assumes p1: "urlparse' u1 = (n1, p1)"
      and p2: "urlparse' u2 = (n2, p2)"
      and same: "(if n1 \<noteq> [] then n1 else p1) = (if n2 \<noteq> [] then n2 else p2)"
      and r1: "register_node urlparse' st u1 = Inr st1"
  shows "register_node urlparse' st1 u2 = Inr st1
         \<and> nodes st1 = insert (if n1 \<noteq> [] then n1 else p1) (nodes st)"
  using assms by (auto simp: register_node_def split: if_splits)

theorem register_node_same_entry_witness:
  "register_node urlparse (init (0::nat) ''n'') ''127.0.0.1:5001''
     = Inr ((init 0 ''n'') \<lparr> nodes := {''127.0.0.1:5001''} \<rparr>)
   \<and> register_node urlparse ((init (0::nat) ''n'') \<lparr> nodes := {''127.0.0.1:5001''} \<rparr>)
       ''http://127.0.0.1:5001''
     = Inr ((init 0 ''n'') \<lparr> nodes := {''127.0.0.1:5001''} \<rparr>)"
proof -
  have r1: "register_node urlparse (init (0::nat) ''n'') ''127.0.0.1:5001''
     = Inr ((init 0 ''n'') \<lparr> nodes := {''127.0.0.1:5001''} \<rparr>)"
    by (simp add: register_node_def urlparse_plain init_def create_block_def Let_def)
  have same: "(if [] \<noteq> [] then [] else ''127.0.0.1:5001'')
                = (if ''127.0.0.1:5001'' \<noteq> [] then ''127.0.0.1:5001'' else [])"
    by simp
  from register_node_same_entry [OF urlparse_plain urlparse_http same r1] r1
  show ?thesis by simp
qed

text \<open>
  The claim as stated fails: an address with a scheme and the same host and port written
  without a scheme but with a trailing slash give two entries.
\<close>

theorem register_node_two_entries_counterexample:
  "register_node urlparse (init (0::nat) ''n'') ''http://127.0.0.1:5001''
     = Inr ((init 0 ''n'') \<lparr> nodes := {''127.0.0.1:5001''} \<rparr>)
   \<and> register_node urlparse ((init (0::nat) ''n'') \<lparr> nodes := {''127.0.0.1:5001''} \<rparr>)
       ''127.0.0.1:5001/''
     = Inr ((init 0 ''n'') \<lparr> nodes := {''127.0.0.1:5001/'', ''127.0.0.1:5001''} \<rparr>)
   \<and> card {''127.0.0.1:5001/'', ''127.0.0.1:5001''} = 2"
  by (simp add: register_node_def urlparse_http urlparse_slash init_def create_block_def Let_def)

subsection \<open>Blocks\<close>

text \<open>
  C8: \<^verbatim>\<open>create_block(nonce, previous_hash)\<close> appends exactly one block; the block carries the
  pending pool as it was at the call, the previous chain length plus one as its number, and
  the two arguments; afterwards the pool is empty and the earlier blocks are unchanged.
\<close>

theorem create_block_appends:
  "(case create_block now st n ph of
      (st', blk) \<Rightarrow>
        chain st' = chain st @ [blk]
        \<and> length (chain st') = length (chain st) + 1
        \<and> take (length (chain st)) (chain st') = chain st
        \<and> block.transactions blk = blockchain.transactions st
        \<and> block_number blk = length (chain st) + 1
        \<and> nonce blk = n
        \<and> previous_hash blk = ph
        \<and> timestamp blk = now
        \<and> blockchain.transactions st' = []
        \<and> nodes st' = nodes st
        \<and> node_id st' = node_id st)"
  by (simp add: create_block_def Let_def)

end
